theory Spec2Isabelle
  imports Complex_Main
begin

section \<open>Domain entity (domain\_manager.py, class DomainInfo)\<close>

text \<open>
  Python strings are modelled as HOL strings. Every character the code inspects
  (the slash, the dot, the letters of the two scheme prefixes) is ASCII, so the functions
  below behave the same on code points as on the characters of a HOL string. Timestamps
  are the ISO strings that \<^verbatim>\<open>datetime.now().isoformat()\<close> returns; the reading of the
  clock is a parameter of every operation that stores one.

  Fields and dictionaries are modelled at the types the source declares for them
  (\<^verbatim>\<open>url: str\<close>, \<^verbatim>\<open>added_time: str = None\<close>, \<^verbatim>\<open>last_check: str = None\<close>,
  \<^verbatim>\<open>status: str\<close>, \<^verbatim>\<open>check_count: int\<close>, \<^verbatim>\<open>error_count: int\<close>); a JSON value of
  another type under one of these keys is outside the model.
\<close>

type_synonym timestamp = string

definition rstrip_slash :: "string \<Rightarrow> string" where
  \<comment> \<open>\<^verbatim>\<open>url.rstrip('/')\<close>: drops every trailing slash.\<close>
  "rstrip_slash s = rev (dropWhile (\<lambda>c. c = CHR ''/'') (rev s))"

definition startswith :: "string \<Rightarrow> string \<Rightarrow> bool" where
  \<comment> \<open>\<^verbatim>\<open>s.startswith(p)\<close>\<close>
  "startswith s p = (take (length p) s = p)"

definition has_http_scheme :: "string \<Rightarrow> bool" where
  \<comment> \<open>\<^verbatim>\<open>url.startswith(('http://', 'https://'))\<close>\<close>
  "has_http_scheme s = (startswith s ''http://'' \<or> startswith s ''https://'')"

definition normalize_url :: "string \<Rightarrow> string" where
  \<comment> \<open>\<^verbatim>\<open>DomainInfo._normalize_url\<close>\<close>
  "normalize_url u =
     (if u = [] then u
      else let r = rstrip_slash u in
           if \<not> has_http_scheme r then ''https://'' @ r else r)"

record DomainInfo =
  url :: string
  added_time :: timestamp
  last_check :: "timestamp option"
  status :: string
  check_count :: int
  error_count :: int

definition DomainInfo_init ::
  "timestamp \<Rightarrow> string \<Rightarrow> timestamp option \<Rightarrow> timestamp option \<Rightarrow> string \<Rightarrow> int \<Rightarrow> int
     \<Rightarrow> DomainInfo" where
  \<comment> \<open>\<^verbatim>\<open>DomainInfo.__init__\<close>; \<open>now\<close> is the clock reading used by
      \<^verbatim>\<open>added_time or datetime.now().isoformat()\<close> (None and the empty string are falsy).\<close>
  "DomainInfo_init now u added lastc st cc ec =
     \<lparr> url = normalize_url u,
       added_time = (case added of None \<Rightarrow> now | Some t \<Rightarrow> if t = [] then now else t),
       last_check = lastc,
       status = st,
       check_count = cc,
       error_count = ec \<rparr>"

definition new_DomainInfo :: "timestamp \<Rightarrow> string \<Rightarrow> DomainInfo" where
  \<comment> \<open>\<^verbatim>\<open>DomainInfo(url)\<close>: every other argument at its default.\<close>
  "new_DomainInfo now u = DomainInfo_init now u None None ''unknown'' 0 0"

text \<open>
  An entity dictionary, as \<^verbatim>\<open>to_dict\<close> writes it and \<^verbatim>\<open>from_dict\<close> reads it. A field
  is \<open>None\<close> when the key is absent; for the two nullable timestamps \<open>None\<close> also
  stands for JSON null, which \<^verbatim>\<open>data.get\<close> returns as Python's None either way.
\<close>

record domain_dict =
  d_url :: "string option"
  d_added_time :: "timestamp option"
  d_last_check :: "timestamp option"
  d_status :: "string option"
  d_check_count :: "int option"
  d_error_count :: "int option"

definition to_dict :: "DomainInfo \<Rightarrow> domain_dict" where
  "to_dict d =
     \<lparr> d_url = Some (url d),
       d_added_time = Some (added_time d),
       d_last_check = last_check d,
       d_status = Some (status d),
       d_check_count = Some (check_count d),
       d_error_count = Some (error_count d) \<rparr>"

definition dict_get :: "'a option \<Rightarrow> 'a \<Rightarrow> 'a" where
  \<comment> \<open>\<^verbatim>\<open>data.get(key, default)\<close>\<close>
  "dict_get v dflt = (case v of None \<Rightarrow> dflt | Some x \<Rightarrow> x)"

definition from_dict :: "timestamp \<Rightarrow> domain_dict \<Rightarrow> DomainInfo" where
  "from_dict now data =
     DomainInfo_init now
       (dict_get (d_url data) [])
       (d_added_time data)
       (d_last_check data)
       (dict_get (d_status data) ''unknown'')
       (dict_get (d_check_count data) 0)
       (dict_get (d_error_count data) 0)"



section \<open>Configuration (config.py)\<close>

definition MAX_DOMAINS :: nat where
  "MAX_DOMAINS = 10"

definition DEFAULT_DOMAINS :: "string list" where
  "DEFAULT_DOMAINS = [''https://www.k8w4w.com'', ''https://www.z6r0j.com'']"

text \<open>\<^verbatim>\<open>DOMAIN_VALIDATION_RULES\<close>\<close>

definition min_length :: nat where "min_length = 4"
definition max_length :: nat where "max_length = 253"
definition allowed_schemes :: "string list" where "allowed_schemes = [''http'', ''https'']"
definition required_tld :: bool where "required_tld = True"


text \<open>
  The attributes of class \<^verbatim>\<open>Config\<close>, in the order config.py defines them. The four
  path attributes are shown relative to the user's home directory, and \<^verbatim>\<open>APP_NAME\<close>
  by the bytes of its UTF-8 encoding. Looking up any other name on the class raises
  AttributeError.
\<close>

datatype config_value =
    CStr string
  | CInt int
  | CPair int int
  | CDict "(string \<times> string) list"
  | CMethod

definition Config_attrs :: "(string \<times> config_value) list" where
  "Config_attrs =
     [ (''APP_NAME'', CStr (map char_of
          [229, 159, 159, 229, 144, 141, 232, 183, 159, 232, 184, 170, 229, 153, 168 :: nat])),
       (''VERSION'', CStr ''1.0.0''),
       (''DATA_DIR'', CStr ''.domain_tracker''),
       (''DOMAINS_FILE'', CStr ''.domain_tracker/domains.json''),
       (''CONFIG_FILE'', CStr ''.domain_tracker/config.json''),
       (''LOG_FILE'', CStr ''.domain_tracker/app.log''),
       (''MAX_DOMAINS'', CInt 10),
       (''REQUEST_TIMEOUT'', CInt 10),
       (''CHECK_INTERVAL'', CInt 300),
       (''RETRY_ATTEMPTS'', CInt 3),
       (''MAX_RETRIES'', CInt 3),
       (''RETRY_DELAY'', CInt 1),
       (''USER_AGENT'', CStr ''Mozilla/5.0 (Windows NT 10.0; Win64; x64) AppleWebKit/537.36 (KHTML, like Gecko) Chrome/91.0.4472.124 Safari/537.36''),
       (''HEADERS'', CDict
          [ (''User-Agent'', ''Mozilla/5.0 (Windows NT 10.0; Win64; x64) AppleWebKit/537.36 (KHTML, like Gecko) Chrome/91.0.4472.124 Safari/537.36''),
            (''Accept'', ''text/html,application/xhtml+xml,application/xml;q=0.9,image/webp,*/*;q=0.8''),
            (''Accept-Language'', ''zh-CN,zh;q=0.9,en;q=0.8''),
            (''Accept-Encoding'', ''gzip, deflate, br''),
            (''Connection'', ''keep-alive''),
            (''Upgrade-Insecure-Requests'', ''1'') ]),
       (''WINDOW_WIDTH'', CInt 700),
       (''WINDOW_HEIGHT'', CInt 500),
       (''WINDOW_MIN_WIDTH'', CInt 500),
       (''WINDOW_MIN_HEIGHT'', CInt 400),
       (''TRAY_ICON_SIZE'', CPair 64 64),
       (''TRAY_ICON_COLOR'', CStr ''#2196F3''),
       (''TRAY_ICON_BG_COLOR'', CStr ''white''),
       (''LOG_LEVEL'', CStr ''INFO''),
       (''LOG_FORMAT'', CStr ''%(asctime)s - %(name)s - %(levelname)s - %(message)s''),
       (''LOG_MAX_SIZE'', CInt (10 * 1024 * 1024)),
       (''LOG_BACKUP_COUNT'', CInt 5),
       (''ensure_data_dir'', CMethod),
       (''get_domains_file'', CMethod),
       (''get_config_file'', CMethod),
       (''get_log_file'', CMethod) ]"

datatype py_exception =
    AttributeError
  | FileNotFoundError
  | JSONDecodeError
  | OSError

definition Config_getattr :: "string \<Rightarrow> py_exception + config_value" where
  \<comment> \<open>\<^verbatim>\<open>Config.<name>\<close>\<close>
  "Config_getattr name =
     (case map_of Config_attrs name of None \<Rightarrow> Inl AttributeError | Some v \<Rightarrow> Inr v)"

section \<open>Persistence (data\_manager.py)\<close>

text \<open>
  The state of the file at \<^verbatim>\<open>Config.DOMAINS_FILE\<close>, as far as
  \<^verbatim>\<open>DataManager.load_domains\<close> tells states apart: the file is missing; opening it
  raises an OSError other than FileNotFoundError; its bytes are not UTF-8; its text (after
  \<^verbatim>\<open>strip\<close> and the removal of a byte-order mark) makes \<^verbatim>\<open>json.loads\<close> raise
  JSONDecodeError; or it parses to a list of entity dictionaries.
\<close>

datatype domains_file =
    Missing
  | Unreadable
  | Undecodable
  | Unparsable
  | Records "domain_dict list"

text \<open>
  What the operating system does with one attempt to write a file: the write goes through,
  \<^verbatim>\<open>open\<close> raises (the file keeps its content), or \<^verbatim>\<open>json.dump\<close> raises after
  \<^verbatim>\<open>open\<close> has truncated the file (a proper prefix of a JSON document is left).
\<close>

datatype io_outcome = IoOk | IoOpenFails | IoWriteFails

fun data_manager_load_domains :: "domains_file \<Rightarrow> py_exception + domain_dict list" where
  \<comment> \<open>\<^verbatim>\<open>DataManager.load_domains\<close>; \<open>Inl\<close> is an exception that leaves the function.\<close>
  "data_manager_load_domains Missing = Inr []"
| "data_manager_load_domains Unreadable = Inl OSError"
| "data_manager_load_domains Undecodable = Inr []"
| "data_manager_load_domains Unparsable = Inr []"
| "data_manager_load_domains (Records ds) = Inr ds"

fun data_manager_save_domains :: "io_outcome \<Rightarrow> domain_dict list \<Rightarrow> domains_file \<Rightarrow> domains_file \<times> bool" where
  \<comment> \<open>\<^verbatim>\<open>DataManager.save_domains\<close>: the new state of the file and the returned flag.\<close>
  "data_manager_save_domains IoOk data f = (Records data, True)"
| "data_manager_save_domains IoOpenFails data f = (f, False)"
| "data_manager_save_domains IoWriteFails data f = (Unparsable, False)"

section \<open>Domain store (domain\_manager.py, class DomainManager)\<close>

text \<open>
  The store: the list \<^verbatim>\<open>self.domains\<close>, the bound \<^verbatim>\<open>self.max_domains\<close>, and the
  state of the file that \<^verbatim>\<open>self.domains_file\<close> names. The entities of the list are
  distinct objects; a reference to one of them is modelled by its position in the list.
\<close>

record DomainManager =
  domains :: "DomainInfo list"
  max_domains :: nat
  domains_file :: domains_file

datatype message =
    EmptyDomain
  | TooShort
  | TooLong
  | InvalidFormat
  | UnsupportedScheme string
  | MissingNetloc
  | BadDomainPattern
  | MissingTld
  | FormatOk
  | AddOk
  | SaveFailed
  | InvalidImportFormat
  | Imported nat
  | ImportFailed py_exception

text \<open>
  The two library functions that \<^verbatim>\<open>validate_domain\<close> calls are parameters of the model:
  \<open>urlparse\<close> gives the scheme and the netloc of a URL (\<open>None\<close> when
  \<^verbatim>\<open>urllib.parse.urlparse\<close> raises), and \<open>re_match_domain\<close> tells whether
  \<^verbatim>\<open>re.match(domain_pattern, netloc)\<close> finds a match.
\<close>

record pylib =
  urlparse :: "string \<Rightarrow> (string \<times> string) option"
  re_match_domain :: "string \<Rightarrow> bool"

definition validate_domain :: "pylib \<Rightarrow> string \<Rightarrow> bool \<times> message" where
  "validate_domain lib u =
     (if u = [] then (False, EmptyDomain)
      else let normalized_url = normalize_url u in
        if length normalized_url < min_length then (False, TooShort)
        else if length normalized_url > max_length then (False, TooLong)
        else case urlparse lib normalized_url of
               None \<Rightarrow> (False, InvalidFormat)
             | Some (scheme, netloc) \<Rightarrow>
                 if scheme \<notin> set allowed_schemes then (False, UnsupportedScheme scheme)
                 else if netloc = [] then (False, MissingNetloc)
                 else if \<not> re_match_domain lib netloc then (False, BadDomainPattern)
                 else if required_tld \<and> CHR ''.'' \<notin> set netloc then (False, MissingTld)
                 else (True, FormatOk))"

fun first_index :: "('a \<Rightarrow> bool) \<Rightarrow> 'a list \<Rightarrow> nat option" where
  "first_index P [] = None"
| "first_index P (x # xs) = (if P x then Some 0 else map_option Suc (first_index P xs))"

definition find_domain :: "DomainInfo list \<Rightarrow> string \<Rightarrow> nat option" where
  \<comment> \<open>\<^verbatim>\<open>DomainManager.find_domain\<close>: the position of the first entity whose URL is the
      normalized argument.\<close>
  "find_domain ds u = first_index (\<lambda>d. url d = normalize_url u) ds"

definition remove_at :: "nat \<Rightarrow> 'a list \<Rightarrow> 'a list" where
  \<comment> \<open>\<^verbatim>\<open>self.domains.remove(obj)\<close> for the object at position \<open>i\<close>.\<close>
  "remove_at i xs = take i xs @ drop (Suc i) xs"

definition add_domain ::
  "pylib \<Rightarrow> timestamp \<Rightarrow> io_outcome \<Rightarrow> string \<Rightarrow> DomainManager \<Rightarrow> DomainManager \<times> (bool \<times> message)" where
  "add_domain lib now io u s =
     (case validate_domain lib u of
        (False, msg) \<Rightarrow> (s, (False, msg))
      | (True, _) \<Rightarrow>
          let new_domain = new_DomainInfo now u;
              ds1 = (case find_domain (domains s) (url new_domain) of
                       Some i \<Rightarrow> ((domains s ! i)\<lparr> added_time := now \<rparr>) # remove_at i (domains s)
                     | None \<Rightarrow> new_domain # domains s);
              ds2 = (if length ds1 > max_domains s then take (max_domains s) ds1 else ds1);
              (f, success) = data_manager_save_domains io (map to_dict ds2) (domains_file s)
          in (s\<lparr> domains := ds2, domains_file := f \<rparr>,
              if success then (True, AddOk) else (False, SaveFailed)))"

definition remove_domain :: "io_outcome \<Rightarrow> string \<Rightarrow> DomainManager \<Rightarrow> DomainManager \<times> bool" where
  "remove_domain io u s =
     (case find_domain (domains s) u of
        None \<Rightarrow> (s, False)
      | Some i \<Rightarrow>
          let domain = domains s ! i;
              ds1 = remove_at i (domains s);
              (f, success) = data_manager_save_domains io (map to_dict ds1) (domains_file s)
          in if success then (s\<lparr> domains := ds1, domains_file := f \<rparr>, True)
             else (s\<lparr> domains := ds1 @ [domain], domains_file := f \<rparr>, False))"



text \<open>
  Loading. An operation that builds several entities reads the clock once for each;
  \<open>clock k\<close> is the reading taken for the \<open>k\<close>-th of them.
\<close>

definition initialize_default_domains ::
  "(nat \<Rightarrow> timestamp) \<Rightarrow> io_outcome \<Rightarrow> DomainManager \<Rightarrow> DomainManager" where
  \<comment> \<open>\<^verbatim>\<open>DomainManager._initialize_default_domains\<close>\<close>
  "initialize_default_domains clock io s =
     (let ds1 = domains s @ map (\<lambda>(k, u). new_DomainInfo (clock k) u) (enumerate 0 DEFAULT_DOMAINS);
          (f, success) = data_manager_save_domains io (map to_dict ds1) (domains_file s)
      in s\<lparr> domains := ds1, domains_file := f \<rparr>)"

definition load_domains ::
  "(nat \<Rightarrow> timestamp) \<Rightarrow> io_outcome \<Rightarrow> DomainManager \<Rightarrow> DomainManager \<times> bool" where
  \<comment> \<open>\<^verbatim>\<open>DomainManager.load_domains\<close>\<close>
  "load_domains clock io s =
     (case data_manager_load_domains (domains_file s) of
        Inr data \<Rightarrow>
          if data \<noteq> []
          then (s\<lparr> domains := map (\<lambda>(k, item). from_dict (clock k) item) (enumerate 0 data) \<rparr>, True)
          else (initialize_default_domains clock io s, True)
      | Inl e \<Rightarrow> (initialize_default_domains clock io s, False))"

definition DomainManager_init :: "(nat \<Rightarrow> timestamp) \<Rightarrow> io_outcome \<Rightarrow> domains_file \<Rightarrow> DomainManager" where
  \<comment> \<open>\<^verbatim>\<open>DomainManager.__init__\<close>, run against a file in state \<open>f\<close>.\<close>
  "DomainManager_init clock io f =
     fst (load_domains clock io \<lparr> domains = [], max_domains = MAX_DOMAINS, domains_file = f \<rparr>)"

text \<open>
  Export and import work on a file the caller names. Such a file is absent, cannot be
  opened, holds no JSON, or holds a JSON object of which the model keeps the three keys
  that \<^verbatim>\<open>export_domains\<close> writes (\<open>None\<close> for a key that is absent).
\<close>

record export_document =
  export_time :: "timestamp option"
  app_version :: "config_value option"
  doc_domains :: "domain_dict list option"

datatype json_file = NoAccess | NotJson | Document export_document

type_synonym filesystem = "string \<Rightarrow> json_file option"

definition export_domains ::
  "timestamp \<Rightarrow> io_outcome \<Rightarrow> string \<Rightarrow> DomainManager \<Rightarrow> filesystem \<Rightarrow> filesystem \<times> bool" where
  \<comment> \<open>\<^verbatim>\<open>DomainManager.export_domains\<close>. The dictionary is built before the file is
      opened, so an exception raised by \<^verbatim>\<open>Config.APP_VERSION\<close> leaves the file system as
      it is. A classmethod is the one kind of attribute value \<^verbatim>\<open>json.dump\<close> rejects.\<close>
  "export_domains now io file_path s fs =
     (case Config_getattr ''APP_VERSION'' of
        Inl e \<Rightarrow> (fs, False)
      | Inr v \<Rightarrow>
          (case io of
             IoOpenFails \<Rightarrow> (fs, False)
           | IoWriteFails \<Rightarrow> (fs(file_path \<mapsto> NotJson), False)
           | IoOk \<Rightarrow>
               if v = CMethod then (fs(file_path \<mapsto> NotJson), False)
               else (fs(file_path \<mapsto> Document
                       \<lparr> export_time = Some now,
                         app_version = Some v,
                         doc_domains = Some (map to_dict (domains s)) \<rparr>), True)))"

fun import_loop ::
  "(nat \<Rightarrow> timestamp) \<Rightarrow> nat \<Rightarrow> domain_dict list \<Rightarrow> DomainInfo list \<Rightarrow> nat \<Rightarrow> DomainInfo list \<times> nat" where
  \<comment> \<open>The \<^verbatim>\<open>for domain_data in data['domains']\<close> loop of \<^verbatim>\<open>import_domains\<close>, with the
      list and \<^verbatim>\<open>imported_count\<close> as accumulators.\<close>
  "import_loop clock k [] ds n = (ds, n)"
| "import_loop clock k (domain_data # rest) ds n =
     (let domain = from_dict (clock k) domain_data in
      if find_domain ds (url domain) = None
      then import_loop clock (Suc k) rest (ds @ [domain]) (Suc n)
      else import_loop clock (Suc k) rest ds n)"

definition import_domains ::
  "(nat \<Rightarrow> timestamp) \<Rightarrow> io_outcome \<Rightarrow> string \<Rightarrow> filesystem \<Rightarrow> DomainManager
     \<Rightarrow> DomainManager \<times> (bool \<times> message)" where
  \<comment> \<open>\<^verbatim>\<open>DomainManager.import_domains\<close>\<close>
  "import_domains clock io file_path fs s =
     (case fs file_path of
        None \<Rightarrow> (s, (False, ImportFailed FileNotFoundError))
      | Some NoAccess \<Rightarrow> (s, (False, ImportFailed OSError))
      | Some NotJson \<Rightarrow> (s, (False, ImportFailed JSONDecodeError))
      | Some (Document data) \<Rightarrow>
          (case doc_domains data of
             None \<Rightarrow> (s, (False, InvalidImportFormat))
           | Some items \<Rightarrow>
               let (ds1, imported_count) = import_loop clock 0 items (domains s) 0;
                   ds2 = (if length ds1 > max_domains s then take (max_domains s) ds1 else ds1);
                   (f, success) = data_manager_save_domains io (map to_dict ds2) (domains_file s)
               in (s\<lparr> domains := ds2, domains_file := f \<rparr>, (True, Imported imported_count))))"

section \<open>Network checker (network\_checker.py, class NetworkChecker)\<close>

text \<open>
  Readings of \<^verbatim>\<open>time.time()\<close> are real numbers of seconds. What the network does with
  a HEAD request is a parameter: a response, or one of the exceptions the four
  \<^verbatim>\<open>except\<close> clauses tell apart, in their order. The list \<open>head_requests\<close> is not a
  field of the class: it records every URL handed to \<^verbatim>\<open>self.session.head\<close>.
\<close>

record response =
  status_code :: int
  resp_url :: string
  history :: "string list"

datatype http_outcome =
    Responds response
  | RaisesTimeout
  | RaisesConnectionError
  | RaisesRequestException string
  | RaisesOther string

datatype check_message =
    CachedResult
  | HTTP int
  | TimeoutError
  | NetworkError
  | RequestError string
  | UnknownError string

record NetworkChecker =
  check_cache :: "string \<Rightarrow> (bool \<times> real) option"
  cache_duration :: real
  head_requests :: "string list"

definition NetworkChecker_init :: NetworkChecker where
  "NetworkChecker_init = \<lparr> check_cache = Map.empty, cache_duration = 300, head_requests = [] \<rparr>"

definition is_cache_valid :: "NetworkChecker \<Rightarrow> real \<Rightarrow> string \<Rightarrow> bool" where
  "is_cache_valid c now u =
     (case check_cache c u of
        None \<Rightarrow> False
      | Some (r, timestamp) \<Rightarrow> now - timestamp < cache_duration c)"

definition get_cached_result :: "NetworkChecker \<Rightarrow> real \<Rightarrow> string \<Rightarrow> bool option" where
  "get_cached_result c now u =
     (if is_cache_valid c now u then map_option fst (check_cache c u) else None)"

definition cache_result :: "real \<Rightarrow> string \<Rightarrow> bool \<Rightarrow> NetworkChecker \<Rightarrow> NetworkChecker" where
  "cache_result now u r c = c\<lparr> check_cache := (check_cache c)(u \<mapsto> (r, now)) \<rparr>"

definition check_domain_simple ::
  "real \<Rightarrow> real \<Rightarrow> http_outcome \<Rightarrow> string \<Rightarrow> NetworkChecker
     \<Rightarrow> NetworkChecker \<times> (bool \<times> check_message \<times> string option)" where
  \<comment> \<open>\<^verbatim>\<open>NetworkChecker.check_domain_simple\<close>: \<open>t_read\<close> is the clock when the cache is
      consulted, \<open>t_write\<close> the clock when the result is cached, \<open>net\<close> what the HEAD
      request meets if it is sent.\<close>
  "check_domain_simple t_read t_write net u c =
     (case get_cached_result c t_read u of
        Some cached_result \<Rightarrow> (c, (cached_result, CachedResult, None))
      | None \<Rightarrow>
          let c1 = c\<lparr> head_requests := head_requests c @ [u] \<rparr> in
          (case net of
             Responds resp \<Rightarrow>
               let is_success = (status_code resp < 400);
                   final_url = (if history resp \<noteq> [] then resp_url resp else u)
               in (cache_result t_write u is_success c1,
                   (is_success, HTTP (status_code resp), Some final_url))
           | RaisesTimeout \<Rightarrow>
               (cache_result t_write u False c1, (False, TimeoutError, None))
           | RaisesConnectionError \<Rightarrow>
               (cache_result t_write u False c1, (False, NetworkError, None))
           | RaisesRequestException e \<Rightarrow>
               (cache_result t_write u False c1, (False, RequestError e, None))
           | RaisesOther e \<Rightarrow>
               (cache_result t_write u False c1, (False, UnknownError e, None))))"


section \<open>Derived notions used in the statements\<close>




definition add_all ::
  "pylib \<Rightarrow> (timestamp \<times> io_outcome \<times> string) list \<Rightarrow> DomainManager \<Rightarrow> DomainManager" where
  \<comment> \<open>A sequence of calls of \<^verbatim>\<open>add_domain\<close>, each with its clock reading, the outcome
      of its write, and its URL.\<close>
  "add_all lib calls s = foldl (\<lambda>s (now, io, u). fst (add_domain lib now io u s)) s calls"

definition call_urls :: "(timestamp \<times> io_outcome \<times> string) list \<Rightarrow> string list" where
  "call_urls calls = map (\<lambda>(now, io, u). normalize_url u) calls"

definition moved_to_front :: "timestamp \<Rightarrow> string \<Rightarrow> DomainInfo list \<Rightarrow> DomainInfo list" where
  \<comment> \<open>The list \<^verbatim>\<open>add_domain\<close> builds before it truncates: the entity found, refreshed
      and moved to the front, or a new entity in front of the others.\<close>
  "moved_to_front now u ds =
     (case find_domain ds (normalize_url u) of
        Some i \<Rightarrow> ((ds ! i)\<lparr> added_time := now \<rparr>) # remove_at i ds
      | None \<Rightarrow> new_DomainInfo now u # ds)"

definition urlparse_bare_scheme :: "pylib \<Rightarrow> bool" where
  \<comment> \<open>A fact of \<^verbatim>\<open>urllib.parse.urlparse\<close> that the statements about \<^verbatim>\<open>add_domain\<close>
      rely on: the netloc of \<^verbatim>\<open>'https://'\<close> is empty.\<close>
  "urlparse_bare_scheme lib = (map_option snd (urlparse lib ''https://'') = Some [])"

section \<open>Concrete inputs\<close>

definition fixed_clock :: "nat \<Rightarrow> timestamp" where
  "fixed_clock k = ''2024-01-01T00:00:00''"

definition example_urlparse :: "string \<Rightarrow> (string \<times> string) option" where
  \<comment> \<open>What \<^verbatim>\<open>urlparse\<close> returns on a lower-case http(s) URL without user info.\<close>
  "example_urlparse u =
     (if startswith u ''https://'' then Some (''https'', takeWhile (\<lambda>c. c \<notin> set ''/?#'') (drop 8 u))
      else if startswith u ''http://'' then Some (''http'', takeWhile (\<lambda>c. c \<notin> set ''/?#'') (drop 7 u))
      else Some ([], []))"

definition example_lib :: pylib where
  "example_lib =
     \<lparr> urlparse = example_urlparse,
       re_match_domain =
         (\<lambda>n. n \<noteq> [] \<and> list_all (\<lambda>c. c \<in> set ''abcdefghijklmnopqrstuvwxyz0123456789.-'') n) \<rparr>"

definition store_ab :: DomainManager where
  "store_ab =
     \<lparr> domains = [new_DomainInfo ''2024-01-01T00:00:00'' ''a.example'',
                  new_DomainInfo ''2024-01-02T00:00:00'' ''b.example''],
       max_domains = MAX_DOMAINS,
       domains_file = Missing \<rparr>"


definition empty_store :: DomainManager where
  "empty_store = \<lparr> domains = [], max_domains = MAX_DOMAINS, domains_file = Missing \<rparr>"

definition store_ten :: DomainManager where
  "store_ten =
     \<lparr> domains = map (new_DomainInfo ''2024-01-01T00:00:00'')
         [''j.example'', ''i.example'', ''h.example'', ''g.example'', ''f.example'',
          ''e.example'', ''d.example'', ''c.example'', ''b.example'', ''a.example''],
       max_domains = MAX_DOMAINS,
       domains_file = Missing \<rparr>"

section \<open>Normalization\<close>

lemma rstrip_slash_decomp: "\<exists>n. u = rstrip_slash u @ replicate n (CHR ''/'')"
proof -
  have "\<exists>n. xs = replicate n (CHR ''/'') @ dropWhile (\<lambda>c. c = CHR ''/'') xs" for xs :: string
  proof (induction xs)
    case Nil
    then show ?case by simp
  next
    case (Cons a xs)
    show ?case
    proof (cases "a = CHR ''/''")
      case True
      from Cons obtain n where "xs = replicate n (CHR ''/'') @ dropWhile (\<lambda>c. c = CHR ''/'') xs" by blast
      then have "a # xs = replicate (Suc n) (CHR ''/'') @ dropWhile (\<lambda>c. c = CHR ''/'') (a # xs)"
        using True by simp
      then show ?thesis by blast
    next
      case False
      then have "a # xs = replicate 0 (CHR ''/'') @ dropWhile (\<lambda>c. c = CHR ''/'') (a # xs)" by simp
      then show ?thesis by blast
    qed
  qed
  then obtain n where "rev u = replicate n (CHR ''/'') @ dropWhile (\<lambda>c. c = CHR ''/'') (rev u)" by blast
  then have "rev (rev u) = rev (replicate n (CHR ''/'') @ dropWhile (\<lambda>c. c = CHR ''/'') (rev u))" by simp
  then have "u = rstrip_slash u @ replicate n (CHR ''/'')"
    unfolding rstrip_slash_def by simp
  then show ?thesis by blast
qed

lemma rstrip_slash_last: "rstrip_slash u \<noteq> [] \<Longrightarrow> last (rstrip_slash u) \<noteq> CHR ''/''"
  unfolding rstrip_slash_def
  using hd_dropWhile[of "\<lambda>c. c = CHR ''/''" "rev u"]
  by (simp add: last_rev)

lemma startswith_append: "startswith r p \<Longrightarrow> startswith (r @ t) p"
  unfolding startswith_def
  by (metis append_eq_conv_conj append.assoc append_take_drop_id)

lemma rstrip_slash_scheme: "has_http_scheme (rstrip_slash u) \<Longrightarrow> has_http_scheme u"
proof -
  assume h: "has_http_scheme (rstrip_slash u)"
  obtain n where "u = rstrip_slash u @ replicate n (CHR ''/'')" using rstrip_slash_decomp by blast
  then show ?thesis using h startswith_append unfolding has_http_scheme_def by metis
qed

lemma rstrip_slash_append:
  assumes "\<exists>c\<in>set r. c \<noteq> CHR ''/''"
  shows "rstrip_slash (p @ r) = p @ rstrip_slash r"
proof -
  from assms obtain c where "c \<in> set (rev r)" "\<not> (c = CHR ''/'')" by auto
  then have "dropWhile (\<lambda>c. c = CHR ''/'') (rev r @ rev p) = dropWhile (\<lambda>c. c = CHR ''/'') (rev r) @ rev p"
    by (rule dropWhile_append1)
  then show ?thesis unfolding rstrip_slash_def by simp
qed

lemma rstrip_slash_idem: "rstrip_slash (rstrip_slash u) = rstrip_slash u"
proof (cases "rstrip_slash u = []")
  case True
  then show ?thesis by (simp add: rstrip_slash_def)
next
  case False
  then have "last (rstrip_slash u) \<noteq> CHR ''/''" by (rule rstrip_slash_last)
  then have "hd (rev (rstrip_slash u)) \<noteq> CHR ''/''" using False by (simp add: hd_rev)
  moreover have "rev (rstrip_slash u) \<noteq> []" using False by simp
  ultimately have "dropWhile (\<lambda>c. c = CHR ''/'') (rev (rstrip_slash u)) = rev (rstrip_slash u)"
    by (cases "rev (rstrip_slash u)") auto
  then show ?thesis by (simp add: rstrip_slash_def[of "rstrip_slash u"])
qed

text \<open>
  Normalization is idempotent on every result but one: a URL made of slashes only is
  normalized to \<^verbatim>\<open>https://\<close>, whose own normal form is \<^verbatim>\<open>https://https:\<close>.
\<close>

lemma normalize_url_idem:
  assumes "normalize_url u \<noteq> ''https://''"
  shows "normalize_url (normalize_url u) = normalize_url u"
proof (cases "u = []")
  case True
  then show ?thesis by (simp add: normalize_url_def)
next
  case False
  let ?r = "rstrip_slash u"
  show ?thesis
  proof (cases "has_http_scheme ?r")
    case True
    then have n: "normalize_url u = ?r" using False by (simp add: normalize_url_def Let_def)
    have "?r \<noteq> []" using True by (auto simp: has_http_scheme_def startswith_def)
    then have "normalize_url ?r = ?r"
      using True by (simp add: normalize_url_def Let_def rstrip_slash_idem)
    then show ?thesis using n by simp
  next
    case nos: False
    then have n: "normalize_url u = ''https://'' @ ?r" using False by (simp add: normalize_url_def Let_def)
    with assms have ne: "?r \<noteq> []" by auto
    then have "last ?r \<noteq> CHR ''/''" by (rule rstrip_slash_last)
    then have "\<exists>c\<in>set ?r. c \<noteq> CHR ''/''" using ne last_in_set by blast
    then have "rstrip_slash (''https://'' @ ?r) = ''https://'' @ rstrip_slash ?r"
      by (rule rstrip_slash_append)
    then have rs: "rstrip_slash (''https://'' @ ?r) = ''https://'' @ ?r"
      by (simp add: rstrip_slash_idem)
    have hs: "has_http_scheme (''https://'' @ ?r)"
      by (simp add: has_http_scheme_def startswith_def)
    have "normalize_url (''https://'' @ ?r) = ''https://'' @ ?r"
      unfolding normalize_url_def[of "''https://'' @ ?r"] Let_def rs using hs by simp
    then show ?thesis using n by simp
  qed
qed

text \<open>
  Claim C9. For a non-empty URL without an http or https prefix, \<^verbatim>\<open>_normalize_url\<close>
  returns \<^verbatim>\<open>https://\<close> followed by the URL without its trailing slashes; for a URL
  that carries one of the two schemes followed by a host (something other than slashes)
  it returns the URL without its trailing slashes; the empty URL is returned as it is.
  The last two conjuncts say what stripping is: the result followed by slashes is the
  argument, and the result does not end in a slash.
\<close>

theorem normalize_url_spec:
  "(u \<noteq> [] \<and> \<not> has_http_scheme u \<longrightarrow> normalize_url u = ''https://'' @ rstrip_slash u)
 \<and> ((\<exists>r. (u = ''http://'' @ r \<or> u = ''https://'' @ r) \<and> (\<exists>c\<in>set r. c \<noteq> CHR ''/''))
       \<longrightarrow> normalize_url u = rstrip_slash u)
 \<and> (u = [] \<longrightarrow> normalize_url u = u)
 \<and> (\<exists>n. u = rstrip_slash u @ replicate n (CHR ''/''))
 \<and> (rstrip_slash u \<noteq> [] \<longrightarrow> last (rstrip_slash u) \<noteq> CHR ''/'')"
proof (intro conjI impI)
  assume "u \<noteq> [] \<and> \<not> has_http_scheme u"
  then show "normalize_url u = ''https://'' @ rstrip_slash u"
    using rstrip_slash_scheme[of u] by (auto simp: normalize_url_def Let_def)
next
  assume "\<exists>r. (u = ''http://'' @ r \<or> u = ''https://'' @ r) \<and> (\<exists>c\<in>set r. c \<noteq> CHR ''/'')"
  then obtain r where u: "u = ''http://'' @ r \<or> u = ''https://'' @ r" and r: "\<exists>c\<in>set r. c \<noteq> CHR ''/''"
    by blast
  from u r have "rstrip_slash u = ''http://'' @ rstrip_slash r \<or> rstrip_slash u = ''https://'' @ rstrip_slash r"
    using rstrip_slash_append by blast
  then have "has_http_scheme (rstrip_slash u)"
    unfolding has_http_scheme_def startswith_def by auto
  moreover have "u \<noteq> []" using u by auto
  ultimately show "normalize_url u = rstrip_slash u"
    by (simp add: normalize_url_def Let_def)
next
  assume "u = []" then show "normalize_url u = u" by (simp add: normalize_url_def)
next
  show "\<exists>n. u = rstrip_slash u @ replicate n (CHR ''/'')" by (rule rstrip_slash_decomp)
next
  assume "rstrip_slash u \<noteq> []" then show "last (rstrip_slash u) \<noteq> CHR ''/''" by (rule rstrip_slash_last)
qed

theorem normalize_url_spec_witness:
  "(''example.com/'' \<noteq> [] \<and> \<not> has_http_scheme ''example.com/'')
   \<and> normalize_url ''example.com/'' = ''https://example.com''
   \<and> normalize_url ''http://a.example//'' = ''http://a.example''
   \<and> normalize_url [] = []"
proof -
  have h1: "''example.com/'' \<noteq> [] \<and> \<not> has_http_scheme ''example.com/''"
    by (simp add: has_http_scheme_def startswith_def)
  have h2: "\<exists>r. (''http://a.example//'' = ''http://'' @ r \<or> ''http://a.example//'' = ''https://'' @ r)
               \<and> (\<exists>c\<in>set r. c \<noteq> CHR ''/'')"
    by (rule exI[of _ "''a.example//''"]) simp
  have r1: "rstrip_slash ''example.com/'' = ''example.com''" by (simp add: rstrip_slash_def)
  have r2: "rstrip_slash ''http://a.example//'' = ''http://a.example''" by (simp add: rstrip_slash_def)
  from normalize_url_spec[of "''example.com/''"] h1
  have c1: "normalize_url ''example.com/'' = ''https://'' @ rstrip_slash ''example.com/''" by blast
  from normalize_url_spec[of "''http://a.example//''"] h2
  have c2: "normalize_url ''http://a.example//'' = rstrip_slash ''http://a.example//''" by blast
  from normalize_url_spec[of "[]"] have c3: "normalize_url [] = []" by blast
  show ?thesis using h1 c1 c2 c3 r1 r2 by simp
qed


section \<open>Looking entities up\<close>

lemma first_index_Some:
  "first_index P xs = Some i \<Longrightarrow> i < length xs \<and> P (xs ! i) \<and> (\<forall>j<i. \<not> P (xs ! j))"
proof (induction xs arbitrary: i)
  case Nil
  then show ?case by simp
next
  case (Cons x xs)
  show ?case
  proof (cases "P x")
    case True
    with Cons.prems show ?thesis by simp
  next
    case False
    with Cons.prems obtain k where k: "first_index P xs = Some k" "i = Suc k" by auto
    from Cons.IH[OF k(1)] have "k < length xs \<and> P (xs ! k) \<and> (\<forall>j<k. \<not> P (xs ! j))" .
    then show ?thesis using False k(2) by (auto simp: nth_Cons split: nat.splits)
  qed
qed

lemma first_index_None: "first_index P xs = None \<longleftrightarrow> (\<forall>x\<in>set xs. \<not> P x)"
  by (induction xs) auto

lemma find_domain_Some:
  "find_domain ds u = Some i \<Longrightarrow>
     i < length ds \<and> url (ds ! i) = normalize_url u \<and> (\<forall>j<i. url (ds ! j) \<noteq> normalize_url u)"
  unfolding find_domain_def by (drule first_index_Some) simp

lemma find_domain_present:
  "d \<in> set ds \<Longrightarrow> url d = normalize_url u \<Longrightarrow> \<exists>i. find_domain ds u = Some i"
  unfolding find_domain_def using first_index_None[of "\<lambda>d. url d = normalize_url u" ds] by fastforce

lemma url_new_DomainInfo: "url (new_DomainInfo now u) = normalize_url u"
  by (simp add: new_DomainInfo_def DomainInfo_init_def)

lemma save_flag: "snd (data_manager_save_domains io data f) = (io = IoOk)"
  by (cases io) simp_all

section \<open>Adding\<close>

lemma validate_not_bare:
  assumes "urlparse_bare_scheme lib" "fst (validate_domain lib u)"
  shows "normalize_url u \<noteq> ''https://''"
proof
  assume e: "normalize_url u = ''https://''"
  from assms(1) obtain sch where "urlparse lib ''https://'' = Some (sch, [])"
    by (auto simp: urlparse_bare_scheme_def)
  then have "\<not> fst (validate_domain lib u)"
    using e by (simp add: validate_domain_def Let_def)
  with assms(2) show False by simp
qed

lemma add_domain_invalid:
  "\<not> fst (validate_domain lib u) \<Longrightarrow> add_domain lib now io u s = (s, validate_domain lib u)"
  by (cases "validate_domain lib u") (auto simp: add_domain_def)

lemma cap_take: "(if m < length xs then take m xs else xs) = take m xs"
  by simp

lemma add_domain_valid:
  assumes "fst (validate_domain lib u)"
  shows "domains (fst (add_domain lib now io u s)) = take (max_domains s) (moved_to_front now u (domains s))"
    and "max_domains (fst (add_domain lib now io u s)) = max_domains s"
    and "snd (add_domain lib now io u s) = (if io = IoOk then (True, AddOk) else (False, SaveFailed))"
proof -
  obtain msg where v: "validate_domain lib u = (True, msg)"
    using assms by (cases "validate_domain lib u") auto
  let ?ds2 = "take (max_domains s) (moved_to_front now u (domains s))"
  obtain f ok where sv: "data_manager_save_domains io (map to_dict ?ds2) (domains_file s) = (f, ok)"
    by fastforce
  have ok: "ok = (io = IoOk)" using sv by (cases io) auto
  have "add_domain lib now io u s =
          (s\<lparr> domains := ?ds2, domains_file := f \<rparr>, if ok then (True, AddOk) else (False, SaveFailed))"
    using v sv unfolding add_domain_def Let_def cap_take
    by (simp add: moved_to_front_def url_new_DomainInfo)
  then show "domains (fst (add_domain lib now io u s)) = ?ds2"
    and "max_domains (fst (add_domain lib now io u s)) = max_domains s"
    and "snd (add_domain lib now io u s) = (if io = IoOk then (True, AddOk) else (False, SaveFailed))"
    using ok by simp_all
qed

lemma length_moved_to_front: "length (moved_to_front now u ds) \<le> Suc (length ds)"
  by (auto simp: moved_to_front_def remove_at_def split: option.splits dest!: find_domain_Some)

lemma add_domain_length:
  "length (domains s) \<le> max_domains s \<Longrightarrow>
     length (domains (fst (add_domain lib now io u s))) \<le> max_domains (fst (add_domain lib now io u s))
     \<and> max_domains (fst (add_domain lib now io u s)) = max_domains s"
  by (cases "fst (validate_domain lib u)") (simp_all add: add_domain_valid add_domain_invalid)

lemma add_all_length:
  "length (domains s) \<le> max_domains s \<Longrightarrow>
     length (domains (add_all lib calls s)) \<le> max_domains s \<and> max_domains (add_all lib calls s) = max_domains s"
proof (induction calls arbitrary: s)
  case Nil
  then show ?case by (simp add: add_all_def)
next
  case (Cons c calls)
  obtain now io u where c: "c = (now, io, u)" by (cases c) auto
  let ?s1 = "fst (add_domain lib now io u s)"
  from add_domain_length[OF Cons.prems, of lib now io u]
  have s1: "length (domains ?s1) \<le> max_domains ?s1" "max_domains ?s1 = max_domains s" by simp_all
  have "add_all lib (c # calls) s = add_all lib calls ?s1" by (simp add: add_all_def c)
  then show ?case using Cons.IH[OF s1(1)] s1(2) by simp
qed

lemma map_url_remove_at:
  "first_index (\<lambda>d. url d = n) ds = Some i \<Longrightarrow> map url (remove_at i ds) = remove1 n (map url ds)"
proof (induction ds arbitrary: i)
  case Nil
  then show ?case by simp
next
  case (Cons d ds)
  show ?case
  proof (cases "url d = n")
    case True
    with Cons.prems show ?thesis by (simp add: remove_at_def)
  next
    case False
    with Cons.prems obtain k where k: "first_index (\<lambda>d. url d = n) ds = Some k" "i = Suc k" by auto
    from Cons.IH[OF k(1)] show ?thesis using False k(2) by (auto simp: remove_at_def)
  qed
qed

lemma map_url_moved_to_front:
  assumes "normalize_url u \<noteq> ''https://''"
  shows "map url (moved_to_front now u ds) = normalize_url u # remove1 (normalize_url u) (map url ds)"
proof (cases "find_domain ds (normalize_url u)")
  case None
  then have "\<forall>d\<in>set ds. url d \<noteq> normalize_url u"
    using assms by (simp add: find_domain_def first_index_None normalize_url_idem)
  then have "normalize_url u \<notin> set (map url ds)" by auto
  then show ?thesis using None by (simp add: moved_to_front_def url_new_DomainInfo remove1_idem)
next
  case (Some i)
  then have fi: "first_index (\<lambda>d. url d = normalize_url u) ds = Some i"
    using assms by (simp add: find_domain_def normalize_url_idem)
  from first_index_Some[OF fi] have "url (ds ! i) = normalize_url u" by simp
  then show ?thesis using Some map_url_remove_at[OF fi] by (simp add: moved_to_front_def)
qed



section \<open>Status updates\<close>







section \<open>The counters of an entity\<close>














section \<open>Removing\<close>

lemma remove_domain_save_fails:
  assumes "find_domain (domains s) u = Some i" "io \<noteq> IoOk"
  shows "domains (fst (remove_domain io u s)) = remove_at i (domains s) @ [domains s ! i]"
    and "snd (remove_domain io u s) = False"
proof -
  show "domains (fst (remove_domain io u s)) = remove_at i (domains s) @ [domains s ! i]"
    using assms by (cases io) (simp_all add: remove_domain_def Let_def)
  show "snd (remove_domain io u s) = False"
    using assms by (cases io) (simp_all add: remove_domain_def Let_def)
qed

lemma store_ab_find_a: "find_domain (domains store_ab) ''a.example'' = Some 0"
  by (simp add: store_ab_def find_domain_def new_DomainInfo_def DomainInfo_init_def normalize_url_def
      rstrip_slash_def has_http_scheme_def startswith_def)

text \<open>
  Claim C3. The claim: when the write fails, \<^verbatim>\<open>remove_domain\<close> returns failure and the
  store is as before the call, the same entities in the same order. The code returns
  failure and puts the removed entity back with \<^verbatim>\<open>self.domains.append(domain)\<close>, at
  the end of the list: removing \<^verbatim>\<open>a.example\<close> from the store of \<^verbatim>\<open>a.example\<close> and
  \<^verbatim>\<open>b.example\<close> with a failing write leaves \<^verbatim>\<open>b.example\<close> first.
\<close>

theorem remove_domain_rollback_reorders:
  "snd (remove_domain IoOpenFails ''a.example'' store_ab) = False
   \<and> domains (fst (remove_domain IoOpenFails ''a.example'' store_ab))
       = [domains store_ab ! 1, domains store_ab ! 0]
   \<and> domains (fst (remove_domain IoOpenFails ''a.example'' store_ab)) \<noteq> domains store_ab
   \<and> map url (domains store_ab) = [''https://a.example'', ''https://b.example'']
   \<and> map url (domains (fst (remove_domain IoOpenFails ''a.example'' store_ab)))
       = [''https://b.example'', ''https://a.example'']"
proof -
  have d: "domains (fst (remove_domain IoOpenFails ''a.example'' store_ab))
           = remove_at 0 (domains store_ab) @ [domains store_ab ! 0]"
    and r: "snd (remove_domain IoOpenFails ''a.example'' store_ab) = False"
    using remove_domain_save_fails[OF store_ab_find_a, of IoOpenFails] by simp_all
  have u: "map url (domains store_ab) = [''https://a.example'', ''https://b.example'']"
    by (simp add: store_ab_def new_DomainInfo_def DomainInfo_init_def normalize_url_def
      rstrip_slash_def has_http_scheme_def startswith_def)
  have l: "domains store_ab = [domains store_ab ! 0, domains store_ab ! 1]"
    by (simp add: store_ab_def)
  have ne: "domains store_ab ! 0 \<noteq> domains store_ab ! 1"
    by (simp add: store_ab_def new_DomainInfo_def DomainInfo_init_def)
  have d2: "domains (fst (remove_domain IoOpenFails ''a.example'' store_ab)) = [domains store_ab ! 1, domains store_ab ! 0]"
    unfolding d by (subst (1) l) (simp add: remove_at_def)
  have ne2: "domains (fst (remove_domain IoOpenFails ''a.example'' store_ab)) \<noteq> domains store_ab"
    unfolding d2 by (subst (3) l) (use ne in simp)
  have u2: "map url (domains (fst (remove_domain IoOpenFails ''a.example'' store_ab))) = [''https://b.example'', ''https://a.example'']"
    unfolding d2 using u by (subst (asm) l) simp
  show ?thesis using r d2 u ne2 u2 by simp
qed

section \<open>Export and import\<close>

text \<open>
  \<^verbatim>\<open>export_domains\<close> reads \<^verbatim>\<open>Config.APP_VERSION\<close>; config.py defines \<^verbatim>\<open>VERSION\<close>
  and no \<^verbatim>\<open>APP_VERSION\<close>. The AttributeError is caught by the function's own
  \<^verbatim>\<open>except Exception\<close>: every call returns False and writes nothing.
\<close>

lemma export_domains_fails: "export_domains now io file_path s fs = (fs, False)"
proof -
  have "map_of Config_attrs ''APP_VERSION'' = None" by code_simp
  then show ?thesis by (simp add: export_domains_def Config_getattr_def)
qed

text \<open>
  Claim C1. The claim: export followed by import into an empty store gives the URLs of
  the exported store, through a file with the keys \<^verbatim>\<open>export_time\<close>,
  \<^verbatim>\<open>app_version\<close> and \<^verbatim>\<open>domains\<close>. On the code, exporting the store of
  \<^verbatim>\<open>a.example\<close> and \<^verbatim>\<open>b.example\<close> returns False and creates no file, and the import
  of that path into an empty store fails with FileNotFoundError and leaves it empty.
\<close>

theorem export_import_roundtrip_fails:
  "export_domains ''2024-03-01T12:00:00'' IoOk ''backup.json'' store_ab Map.empty = (Map.empty, False)
   \<and> import_domains fixed_clock IoOk ''backup.json''
        (fst (export_domains ''2024-03-01T12:00:00'' IoOk ''backup.json'' store_ab Map.empty)) empty_store
      = (empty_store, (False, ImportFailed FileNotFoundError))
   \<and> map url (domains store_ab) = [''https://a.example'', ''https://b.example'']
   \<and> map url (domains empty_store) = []"
proof -
  have e: "export_domains ''2024-03-01T12:00:00'' IoOk ''backup.json'' store_ab Map.empty = (Map.empty, False)"
    by (rule export_domains_fails)
  have i: "import_domains fixed_clock IoOk ''backup.json'' Map.empty empty_store
      = (empty_store, (False, ImportFailed FileNotFoundError))"
    by (simp add: import_domains_def)
  have u: "map url (domains store_ab) = [''https://a.example'', ''https://b.example'']"
    by (simp add: store_ab_def new_DomainInfo_def DomainInfo_init_def normalize_url_def
      rstrip_slash_def has_http_scheme_def startswith_def)
  show ?thesis using e i u by (simp add: empty_store_def)
qed

section \<open>The invariant of the counters through the store\<close>






section \<open>Loading a file that cannot be read as JSON\<close>





section \<open>The bound on the size of the store\<close>

lemma take_append_take: "take m (xs @ take m ys) = take m (xs @ ys)"
  by (simp add: min_def)

lemma find_domain_normalized:
  "normalize_url u \<noteq> ''https://'' \<Longrightarrow> find_domain ds (normalize_url u) = find_domain ds u"
  by (simp add: find_domain_def normalize_url_idem)

lemma add_domain_urls:
  assumes "urlparse_bare_scheme lib" "fst (validate_domain lib u)"
  shows "map url (domains (fst (add_domain lib now io u s))) =
           take (max_domains s) (normalize_url u # remove1 (normalize_url u) (map url (domains s)))"
proof -
  have nb: "normalize_url u \<noteq> ''https://''" using assms by (rule validate_not_bare)
  show ?thesis
    unfolding add_domain_valid(1)[OF assms(2)] take_map[symmetric] map_url_moved_to_front[OF nb] ..
qed

lemma add_all_Cons:
  "add_all lib ((now, io, u) # calls) s = add_all lib calls (fst (add_domain lib now io u s))"
  by (simp add: add_all_def)

lemma add_all_new_urls:
  assumes lib: "urlparse_bare_scheme lib"
  shows "list_all (\<lambda>(now, io, u). fst (validate_domain lib u)) calls \<Longrightarrow>
         distinct (call_urls calls) \<Longrightarrow>
         set (call_urls calls) \<inter> set (map url (domains s)) = {} \<Longrightarrow>
         length (domains s) \<le> max_domains s \<Longrightarrow>
         map url (domains (add_all lib calls s)) =
           take (max_domains s) (rev (call_urls calls) @ map url (domains s))"
proof (induction calls arbitrary: s)
  case Nil
  then show ?case by (simp add: add_all_def call_urls_def)
next
  case (Cons c calls)
  obtain now io u where c: "c = (now, io, u)" by (cases c) auto
  let ?n = "normalize_url u"
  let ?s1 = "fst (add_domain lib now io u s)"
  have v: "fst (validate_domain lib u)" using Cons.prems(1) c by simp
  have new: "?n \<notin> set (map url (domains s))" using Cons.prems(3) c by (simp add: call_urls_def)
  have u1: "map url (domains ?s1) = take (max_domains s) (?n # map url (domains s))"
    using add_domain_urls[OF lib v, of now io s] new by (simp add: remove1_idem)
  have m1: "max_domains ?s1 = max_domains s" using v by (simp add: add_domain_valid)
  have l1: "length (domains ?s1) \<le> max_domains ?s1"
    using add_domain_length[OF Cons.prems(4), of lib now io u] by simp
  have p1: "list_all (\<lambda>(now, io, u). fst (validate_domain lib u)) calls" using Cons.prems(1) by simp
  have p2: "distinct (call_urls calls)" using Cons.prems(2) by (simp add: call_urls_def)
  have "set (map url (domains ?s1)) \<subseteq> insert ?n (set (map url (domains s)))"
    unfolding u1 using set_take_subset[of "max_domains s" "?n # map url (domains s)"] by simp
  moreover have "?n \<notin> set (call_urls calls)" using Cons.prems(2) c by (simp add: call_urls_def)
  moreover have "set (call_urls calls) \<inter> set (map url (domains s)) = {}"
    using Cons.prems(3) by (auto simp: call_urls_def)
  ultimately have p3: "set (call_urls calls) \<inter> set (map url (domains ?s1)) = {}" by blast
  have "map url (domains (add_all lib (c # calls) s)) = map url (domains (add_all lib calls ?s1))"
    by (simp add: c add_all_Cons)
  also have "\<dots> = take (max_domains s) (rev (call_urls calls) @ map url (domains ?s1))"
    using Cons.IH[OF p1 p2 p3 l1] m1 by simp
  also have "\<dots> = take (max_domains s) (rev (call_urls calls) @ (?n # map url (domains s)))"
    unfolding u1 by (rule take_append_take)
  also have "\<dots> = take (max_domains s) (rev (call_urls (c # calls)) @ map url (domains s))"
    by (simp add: c call_urls_def)
  finally show ?case .
qed

lemma add_domain_at_capacity:
  assumes "urlparse_bare_scheme lib" "fst (validate_domain lib u)"
    and "find_domain (domains s) u = None"
    and "length (domains s) = max_domains s" "0 < max_domains s"
  shows "domains (fst (add_domain lib now io u s)) = new_DomainInfo now u # butlast (domains s)"
proof -
  have nb: "normalize_url u \<noteq> ''https://''" using assms(1,2) by (rule validate_not_bare)
  have "moved_to_front now u (domains s) = new_DomainInfo now u # domains s"
    using assms(3) find_domain_normalized[OF nb] by (simp add: moved_to_front_def)
  then have "domains (fst (add_domain lib now io u s)) =
               take (max_domains s) (new_DomainInfo now u # domains s)"
    using add_domain_valid(1)[OF assms(2)] by simp
  also have "\<dots> = new_DomainInfo now u # take (length (domains s) - 1) (domains s)"
    using assms(4,5) by (cases "max_domains s") simp_all
  finally show ?thesis by (simp add: butlast_conv_take)
qed

lemma add_domain_valid_length:
  "fst (validate_domain lib u) \<Longrightarrow> length (domains (fst (add_domain lib now io u s))) \<le> max_domains s"
  by (simp add: add_domain_valid)

lemma max_domains_init: "max_domains (DomainManager_init clock io f) = 10"
  by (cases f; cases io)
     (simp_all add: DomainManager_init_def load_domains_def initialize_default_domains_def
        Let_def MAX_DOMAINS_def)


lemma example_lib_bare: "urlparse_bare_scheme example_lib"
  by (simp add: urlparse_bare_scheme_def example_lib_def example_urlparse_def startswith_def)

lemma example_valid_k: "fst (validate_domain example_lib ''k.example'')"
  by code_simp


lemma store_ten_find_k: "find_domain (domains store_ten) ''k.example'' = None"
  by code_simp

lemma store_ten_length: "length (domains store_ten) = 10" "max_domains store_ten = 10"
  by (simp_all add: store_ten_def MAX_DOMAINS_def)


text \<open>
  Claim C5. Through any sequence of \<^verbatim>\<open>add_domain\<close> calls (valid or rejected URLs,
  writes that succeed or fail) a store within its bound stays within it, and the bound of
  a store as constructed is 10. A call that passes validation leaves the store within
  its bound whatever its size was, puts the normalized URL
  at index 0 and keeps the other URLs in their order, cut at the bound; so after a
  sequence of valid new URLs the store holds the URLs added, the latest first, followed
  by the older ones, cut at the bound. Adding a new URL to a store
  that is at its bound gives the new entity at index 0 followed by the old list without
  its last, and oldest, entity.
\<close>

theorem add_domain_capacity:
  assumes "urlparse_bare_scheme lib"
  shows "(length (domains s) \<le> max_domains s \<longrightarrow>
            length (domains (add_all lib calls s)) \<le> max_domains s
          \<and> max_domains (add_all lib calls s) = max_domains s)
       \<and> max_domains (DomainManager_init clock io f) = 10
       \<and> (fst (validate_domain lib u) \<longrightarrow>
            length (domains (fst (add_domain lib now io u s))) \<le> max_domains s)
       \<and> (fst (validate_domain lib u) \<longrightarrow>
            map url (domains (fst (add_domain lib now io u s))) =
              take (max_domains s) (normalize_url u # remove1 (normalize_url u) (map url (domains s))))
       \<and> (list_all (\<lambda>(now, io, u). fst (validate_domain lib u)) calls
            \<and> distinct (call_urls calls)
            \<and> set (call_urls calls) \<inter> set (map url (domains s)) = {}
            \<and> length (domains s) \<le> max_domains s \<longrightarrow>
            map url (domains (add_all lib calls s)) =
              take (max_domains s) (rev (call_urls calls) @ map url (domains s)))
       \<and> (fst (validate_domain lib u) \<and> find_domain (domains s) u = None
            \<and> length (domains s) = max_domains s \<and> 0 < max_domains s \<longrightarrow>
            domains (fst (add_domain lib now io u s)) = new_DomainInfo now u # butlast (domains s))"
  using add_all_length[of s lib calls] max_domains_init[of clock io f]
    add_domain_valid_length[of lib u now io s]
    add_domain_urls[OF assms, of u now io s] add_all_new_urls[OF assms, of calls s]
    add_domain_at_capacity[OF assms, of u s now io]
  by blast

theorem add_domain_capacity_witness:
  "urlparse_bare_scheme example_lib
   \<and> fst (validate_domain example_lib ''k.example'')
   \<and> find_domain (domains store_ten) ''k.example'' = None
   \<and> length (domains store_ten) = 10 \<and> max_domains store_ten = 10
   \<and> domains (fst (add_domain example_lib ''2024-03-01T12:00:00'' IoOk ''k.example'' store_ten))
       = new_DomainInfo ''2024-03-01T12:00:00'' ''k.example'' # butlast (domains store_ten)
   \<and> length (domains (fst (add_domain example_lib ''2024-03-01T12:00:00'' IoOk ''k.example'' store_ten))) = 10
   \<and> length (domains (add_all example_lib
        [(''2024-03-01T12:00:00'', IoOk, ''k.example''), (''2024-03-01T12:01:00'', IoWriteFails, ''l.example''),
         (''2024-03-01T12:02:00'', IoOk, ''not a url'')] store_ten)) \<le> 10"
proof -
  note t = add_domain_capacity[OF example_lib_bare, where s = store_ten and u = "''k.example''"
      and now = "''2024-03-01T12:00:00''" and io = IoOk
      and calls = "[(''2024-03-01T12:00:00'', IoOk, ''k.example''), (''2024-03-01T12:01:00'', IoWriteFails, ''l.example''),
         (''2024-03-01T12:02:00'', IoOk, ''not a url'')]"]
  have h: "fst (validate_domain example_lib ''k.example'') \<and> find_domain (domains store_ten) ''k.example'' = None
            \<and> length (domains store_ten) = max_domains store_ten \<and> 0 < max_domains store_ten"
    using example_valid_k store_ten_find_k store_ten_length by simp
  have l: "length (domains store_ten) \<le> max_domains store_ten" using store_ten_length by simp
  from t h have a: "domains (fst (add_domain example_lib ''2024-03-01T12:00:00'' IoOk ''k.example'' store_ten))
       = new_DomainInfo ''2024-03-01T12:00:00'' ''k.example'' # butlast (domains store_ten)" by blast
  from t l have b: "length (domains (add_all example_lib
        [(''2024-03-01T12:00:00'', IoOk, ''k.example''), (''2024-03-01T12:01:00'', IoWriteFails, ''l.example''),
         (''2024-03-01T12:02:00'', IoOk, ''not a url'')] store_ten)) \<le> max_domains store_ten" by blast
  have c: "length (new_DomainInfo ''2024-03-01T12:00:00'' ''k.example'' # butlast (domains store_ten)) = 10"
    using store_ten_length by simp
  show ?thesis using example_lib_bare example_valid_k store_ten_find_k store_ten_length a b c by simp
qed



section \<open>The result cache of the network checker\<close>

lemma check_domain_simple_hit:
  assumes "check_cache c u = Some (b, ts)" "t - ts < cache_duration c"
  shows "check_domain_simple t t' net u c = (c, (b, CachedResult, None))"
  using assms by (simp add: check_domain_simple_def get_cached_result_def is_cache_valid_def)

lemma check_domain_simple_miss:
  assumes "\<not> is_cache_valid c t u"
  shows "\<exists>b msg fu. check_domain_simple t t' net u c =
           (c\<lparr> head_requests := head_requests c @ [u],
               check_cache := (check_cache c)(u \<mapsto> (b, t')) \<rparr>, (b, msg, fu))"
  using assms
  by (cases net) (auto simp: check_domain_simple_def get_cached_result_def cache_result_def Let_def)

lemma check_domain_simple_miss_result:
  assumes "\<not> is_cache_valid c t u"
  shows "fst (snd (check_domain_simple t t' net u c)) =
           (case net of Responds resp \<Rightarrow> status_code resp < 400 | _ \<Rightarrow> False)"
  using assms
  by (cases net) (simp_all add: check_domain_simple_def get_cached_result_def Let_def)

lemma is_cache_valid_entry:
  "is_cache_valid c t u \<Longrightarrow> \<exists>b ts. check_cache c u = Some (b, ts) \<and> t - ts < cache_duration c"
  by (auto simp: is_cache_valid_def split: option.splits)

text \<open>
  Claim C8. A call of \<^verbatim>\<open>check_domain_simple\<close> that finds no valid cache entry sends one
  HEAD request and caches the boolean it returns, stamped with the clock, whatever the
  request meets: a response (success is a status code below 400), a timeout, a
  connection error, another request exception or any other exception (all cached as
  False). A call that finds a valid entry sends nothing. Either way the cache then holds
  the boolean returned, and a second call for the same URL made while that entry is
  younger than \<^verbatim>\<open>cache_duration\<close> returns it as the cached result and sends nothing:
  the two calls send at most one request.
\<close>

theorem check_domain_simple_caches:
  "(let (c1, r1) = check_domain_simple t1 t1' net1 u c in
      map_option fst (check_cache c1 u) = Some (fst r1)
    \<and> cache_duration c1 = cache_duration c
    \<and> (\<not> is_cache_valid c t1 u \<longrightarrow>
          check_cache c1 u = Some (fst r1, t1') \<and> head_requests c1 = head_requests c @ [u]
        \<and> fst r1 = (case net1 of Responds resp \<Rightarrow> status_code resp < 400 | _ \<Rightarrow> False))
    \<and> (is_cache_valid c t1 u \<longrightarrow> c1 = c \<and> snd r1 = (CachedResult, None))
    \<and> (\<forall>ts. map_option snd (check_cache c1 u) = Some ts \<and> t2 - ts < cache_duration c1 \<longrightarrow>
          check_domain_simple t2 t2' net2 u c1 = (c1, (fst r1, CachedResult, None))
        \<and> length (head_requests (fst (check_domain_simple t2 t2' net2 u c1)))
             \<le> length (head_requests c) + 1))"
proof (cases "is_cache_valid c t1 u")
  case True
  then obtain b ts where e: "check_cache c u = Some (b, ts)" "t1 - ts < cache_duration c"
    using is_cache_valid_entry by blast
  have r: "check_domain_simple t1 t1' net1 u c = (c, (b, CachedResult, None))"
    using e by (rule check_domain_simple_hit)
  show ?thesis
    unfolding r using True e check_domain_simple_hit[of c u b _ t2 t2' net2]
    by (auto simp: Let_def)
next
  case False
  then obtain b msg fu where r: "check_domain_simple t1 t1' net1 u c =
       (c\<lparr> head_requests := head_requests c @ [u],
           check_cache := (check_cache c)(u \<mapsto> (b, t1')) \<rparr>, (b, msg, fu))"
    using check_domain_simple_miss by blast
  let ?c1 = "c\<lparr> head_requests := head_requests c @ [u], check_cache := (check_cache c)(u \<mapsto> (b, t1')) \<rparr>"
  have h: "t2 - t1' < cache_duration c \<Longrightarrow>
             check_domain_simple t2 t2' net2 u ?c1 = (?c1, (b, CachedResult, None))"
    using check_domain_simple_hit[of ?c1 u b t1' t2 t2' net2] by simp
  have b: "b = (case net1 of Responds resp \<Rightarrow> status_code resp < 400 | _ \<Rightarrow> False)"
    using check_domain_simple_miss_result[OF False, of t1' net1] unfolding r by simp
  show ?thesis
    unfolding r using False h b by (auto simp: Let_def)
qed

theorem check_domain_simple_caches_witness:
  "\<not> is_cache_valid NetworkChecker_init 1000 ''https://a.example''
   \<and> check_domain_simple 1000 1001 RaisesTimeout ''https://a.example'' NetworkChecker_init
       = (NetworkChecker_init\<lparr> head_requests := [''https://a.example''],
             check_cache := [''https://a.example'' \<mapsto> (False, 1001)] \<rparr>, (False, TimeoutError, None))
   \<and> (1200::real) - 1001 < 300
   \<and> snd (check_domain_simple 1200 1201 (Responds \<lparr> status_code = 200, resp_url = ''https://a.example'', history = [] \<rparr>)
        ''https://a.example''
        (fst (check_domain_simple 1000 1001 RaisesTimeout ''https://a.example'' NetworkChecker_init)))
       = (False, CachedResult, None)
   \<and> head_requests (fst (check_domain_simple 1200 1201 (Responds \<lparr> status_code = 200, resp_url = ''https://a.example'', history = [] \<rparr>)
        ''https://a.example''
        (fst (check_domain_simple 1000 1001 RaisesTimeout ''https://a.example'' NetworkChecker_init))))
       = [''https://a.example'']"
proof -
  let ?u = "''https://a.example''"
  let ?net2 = "Responds \<lparr> status_code = 200, resp_url = ''https://a.example'', history = [] \<rparr>"
  let ?c1 = "NetworkChecker_init\<lparr> head_requests := [?u], check_cache := [?u \<mapsto> (False, 1001)] \<rparr>"
  have nv: "\<not> is_cache_valid NetworkChecker_init 1000 ?u"
    by (simp add: is_cache_valid_def NetworkChecker_init_def)
  have r1: "check_domain_simple 1000 1001 RaisesTimeout ?u NetworkChecker_init = (?c1, (False, TimeoutError, None))"
    by (simp add: check_domain_simple_def get_cached_result_def is_cache_valid_def
        NetworkChecker_init_def cache_result_def)
  have ttl: "map_option snd (check_cache ?c1 ?u) = Some 1001 \<and> (1200::real) - 1001 < cache_duration ?c1"
    by (simp add: NetworkChecker_init_def)
  note t = check_domain_simple_caches[of 1000 1001 RaisesTimeout ?u NetworkChecker_init 1200 1201 ?net2]
  from t have t': "\<forall>ts. map_option snd (check_cache ?c1 ?u) = Some ts \<and> 1200 - ts < cache_duration ?c1 \<longrightarrow>
          check_domain_simple 1200 1201 ?net2 ?u ?c1 = (?c1, (False, CachedResult, None))
        \<and> length (head_requests (fst (check_domain_simple 1200 1201 ?net2 ?u ?c1)))
             \<le> length (head_requests NetworkChecker_init) + 1"
    unfolding r1 Let_def prod.case fst_conv by blast
  from t' ttl have r2: "check_domain_simple 1200 1201 ?net2 ?u ?c1 = (?c1, (False, CachedResult, None))"
    by blast
  have hr: "head_requests ?c1 = [?u]" by simp
  show ?thesis using nv r2 hr unfolding r1 by simp
qed

end
